theory Spec2Isabelle
  imports Main
begin

section \<open>Values shared by the side-panel controller and the path resolver\<close>

text \<open>
  A thrown JavaScript \<^verbatim>\<open>Error(message)\<close> is a value: every function of the source that
  can throw returns \<open>error + 'a\<close>, with \<open>Inl\<close> carrying the error.
\<close>

datatype error = Error string

text \<open>
  JavaScript truthiness of an optional string (\<^verbatim>\<open>entityId && ...\<close>, \<^verbatim>\<open>!!k\<close>):
  \<^verbatim>\<open>undefined\<close> and the empty string are falsy, every other string is truthy.
  An optional boolean is truthy only when it is \<^verbatim>\<open>true\<close>.
\<close>

definition truthy_string :: "string option \<Rightarrow> bool" where
  "truthy_string v = (case v of None \<Rightarrow> False | Some s \<Rightarrow> s \<noteq> [])"

definition truthy_bool :: "bool option \<Rightarrow> bool" where
  "truthy_bool v = (case v of None \<Rightarrow> False | Some b \<Rightarrow> b)"

text \<open>
  The collection descriptor (\<^verbatim>\<open>EntityCollection\<close>) and the custom view
  (\<^verbatim>\<open>EntityCustomView\<close>) are declared in \<^verbatim>\<open>../models\<close>. The fields kept are the ones
  the sources read: the relative path of a collection, its custom views, its nested
  subcollections, and the path of a custom view.
\<close>

datatype EntityCustomView = EntityCustomView (view_path: string)

datatype EntityCollection =
  EntityCollection (relativePath: string) (views: "EntityCustomView list")
    (subcollections: "EntityCollection list")

text \<open>Schema and permissions overrides are opaque to the controller: it only stores them.\<close>

datatype EntitySchema = EntitySchema string

datatype Permissions = Permissions bool bool bool

section \<open>The side-panel stack controller (\<^verbatim>\<open>SideEntityProvider\<close>)\<close>

text \<open>
  \<^verbatim>\<open>ExtendedPanelProps\<close>: \<^verbatim>\<open>SideEntityPanelProps\<close> (collection path, optional entity id,
  optional selected subpath, optional copy flag) extended by the optional key of the
  registry entry.
\<close>

record panel =
  collectionPath :: string
  entityId :: "string option"
  selectedSubpath :: "string option"
  copy :: "bool option"
  sidePanelKey :: "string option"

text \<open>
  A browser location with its history state. The state the controller writes holds the
  location of the main view and the panel stack; a location written by anyone else may
  have no state, or a state without either field.
\<close>

datatype location = Location (pathname: string) (state: "loc_state option")
  and loc_state = LocState (main_location: "location option") (panels: "panel list option")

text \<open>
  \<^verbatim>\<open>location?.state && location.state["panels"]\<close>: the panel list a location carries in
  its state, if any. An array is truthy even when it is empty.
\<close>

definition location_panels :: "location option \<Rightarrow> panel list option" where
  "location_panels loc =
     (case loc of None \<Rightarrow> None
      | Some l \<Rightarrow> (case state l of None \<Rightarrow> None | Some st \<Rightarrow> panels st))"

text \<open>
  The browser history the controller talks to: the current entry (what
  \<^verbatim>\<open>useLocation()\<close> returns), the entries before it (nearest first) and the entries
  after it. There is always a current entry.
\<close>

record history =
  past :: "location list"
  current :: location
  future :: "location list"

definition entries :: "history \<Rightarrow> location list" where
  "entries h = rev (past h) @ current h # future h"

text \<open>The value stored in the schema registry under a side-panel key.\<close>

record schema_override =
  ov_permissions :: "Permissions option"
  ov_schema :: "EntitySchema option"
  ov_subcollections :: "EntityCollection list option"
  ov_overrideSchemaResolver :: "bool option"

type_synonym registry = "string \<rightharpoonup> schema_override"

text \<open>
  Modelled from the spec: the schema registry (\<^verbatim>\<open>./SchemaRegistry\<close>) is not among the
  sources. \<open>setOverride\<close> registers an override under a key; \<open>removeAllOverridesExcept\<close>
  prunes the registry of every override whose key is not in the given list.
\<close>

definition setOverride :: "string \<Rightarrow> schema_override \<Rightarrow> registry \<Rightarrow> registry" where
  "setOverride key ov reg = reg(key \<mapsto> ov)"

definition removeAllOverridesExcept :: "string list \<Rightarrow> registry \<Rightarrow> registry" where
  "removeAllOverridesExcept keys reg = (\<lambda>k. if k \<in> set keys then reg k else None)"

text \<open>The state of the provider: the panel stack, the registry and the history.\<close>

record provider =
  sidePanels :: "panel list"
  schemasRegistry :: registry
  hist :: history

text \<open>
  The listener registered with \<^verbatim>\<open>history.listen\<close>. It receives the new location.
\<close>

definition history_listener :: "location option \<Rightarrow> provider \<Rightarrow> provider" where
  "history_listener loc s =
     (case location_panels loc of
        Some ps \<Rightarrow>
          (let customSchemaKeys =
                 map the (filter truthy_string (map sidePanelKey ps))
           in s\<lparr>schemasRegistry := removeAllOverridesExcept customSchemaKeys (schemasRegistry s),
                sidePanels := ps\<rparr>)
      | None \<Rightarrow>
          s\<lparr>schemasRegistry := removeAllOverridesExcept [] (schemasRegistry s),
            sidePanels := []\<rparr>)"

text \<open>
  The three operations of the history object the controller calls. Each changes the
  entries or the current position and then notifies the listener with the new current
  location. \<open>history_go\<close> moves the position by \<open>n\<close> entries when the target entry
  exists; a move outside the recorded entries changes nothing here.
\<close>

definition notify :: "provider \<Rightarrow> provider" where
  "notify s = history_listener (Some (current (hist s))) s"

definition history_push :: "string \<Rightarrow> loc_state option \<Rightarrow> provider \<Rightarrow> provider" where
  "history_push path st s =
     notify (s\<lparr>hist := \<lparr>past = current (hist s) # past (hist s),
                         current = Location path st,
                         future = []\<rparr>\<rparr>)"

definition history_replace :: "string \<Rightarrow> loc_state option \<Rightarrow> provider \<Rightarrow> provider" where
  "history_replace path st s =
     notify (s\<lparr>hist := (hist s)\<lparr>current := Location path st\<rparr>\<rparr>)"

definition history_go :: "int \<Rightarrow> provider \<Rightarrow> provider" where
  "history_go n s =
     (let es = entries (hist s);
          j = int (length (past (hist s))) + n
      in if 0 \<le> j \<and> j < int (length es)
         then notify (s\<lparr>hist := \<lparr>past = rev (take (nat j) es),
                                  current = es ! nat j,
                                  future = drop (Suc (nat j)) es\<rparr>\<rparr>)
         else s)"

text \<open>
  The path helpers of \<^verbatim>\<open>../core/navigation\<close> and \<^verbatim>\<open>./utils\<close> are not among the
  sources; the controller is parametrised by them.
\<close>

record helpers =
  getSidePanelKey :: "string \<Rightarrow> string option \<Rightarrow> string"
  getEntityPath :: "string \<Rightarrow> string \<Rightarrow> string option \<Rightarrow> string"
  getRouterNewEntityPath :: "string \<Rightarrow> string"
  getCMSPathFrom :: "string \<Rightarrow> string"

text \<open>\<^verbatim>\<open>close\<close>: close the last panel.\<close>

definition close :: "helpers \<Rightarrow> provider \<Rightarrow> provider" where
  "close hp s =
     (if length (sidePanels s) = 0 then s
      else
        let lastSidePanel = last (sidePanels s);
            locationPanels = location_panels (Some (current (hist s)))
        in if (case locationPanels of None \<Rightarrow> False | Some ps \<Rightarrow> length ps > 0)
           then history_go (- 1) s
           else history_replace (getCMSPathFrom hp (collectionPath lastSidePanel)) None s)"

text \<open>
  The argument of \<^verbatim>\<open>open\<close>: \<^verbatim>\<open>SideEntityPanelProps & Partial<SchemaConfig> &
  { overrideSchemaResolver?: boolean }\<close>.
\<close>

record open_props =
  op_collectionPath :: string
  op_entityId :: "string option"
  op_selectedSubpath :: "string option"
  op_copy :: "bool option"
  op_schema :: "EntitySchema option"
  op_permissions :: "Permissions option"
  op_subcollections :: "EntityCollection list option"
  op_overrideSchemaResolver :: "bool option"

text \<open>
  \<^verbatim>\<open>mainLocation\<close>: the main location recorded in the current history state when there
  is one, the current location otherwise.
\<close>

definition mainLocation :: "provider \<Rightarrow> location" where
  "mainLocation s =
     (case (case state (current (hist s)) of None \<Rightarrow> None
            | Some st \<Rightarrow> main_location st) of
        Some m \<Rightarrow> m
      | None \<Rightarrow> current (hist s))"

text \<open>\<^verbatim>\<open>open\<close>: open a panel, or update the topmost one.\<close>

definition "open" :: "helpers \<Rightarrow> open_props \<Rightarrow> provider \<Rightarrow> error + provider" where
  "open hp props s =
     (if truthy_bool (op_copy props) \<and> \<not> truthy_string (op_entityId props)
      then Inl (Error ''If you want to copy an entity you need to provide an entityId'')
      else
        let key = getSidePanelKey hp (op_collectionPath props) (op_entityId props);
            s1 = (if op_schema props \<noteq> None \<or> op_permissions props \<noteq> None
                     \<or> op_subcollections props \<noteq> None
                  then s\<lparr>schemasRegistry :=
                          setOverride key
                            \<lparr>ov_permissions = op_permissions props,
                             ov_schema = op_schema props,
                             ov_subcollections = op_subcollections props,
                             ov_overrideSchemaResolver = op_overrideSchemaResolver props\<rparr>
                            (schemasRegistry s)\<rparr>
                  else s);
            newPath = (if truthy_string (op_entityId props)
                       then getEntityPath hp (the (op_entityId props)) (op_collectionPath props)
                              (op_selectedSubpath props)
                       else getRouterNewEntityPath hp (op_collectionPath props));
            lastSidePanel = (if length (sidePanels s) > 0 then Some (last (sidePanels s)) else None)
        in if truthy_string (op_entityId props)
              \<and> (case lastSidePanel of None \<Rightarrow> False
                  | Some l \<Rightarrow> collectionPath l = op_collectionPath props
                              \<and> entityId l = op_entityId props)
           then
             let updatedPanel = (last (sidePanels s))\<lparr>sidePanelKey := Some key,
                                   selectedSubpath := op_selectedSubpath props\<rparr>
             in Inr (history_replace
                       (getEntityPath hp (the (op_entityId props)) (op_collectionPath props)
                          (op_selectedSubpath props))
                       (Some (LocState (Some (mainLocation s))
                                (Some (butlast (sidePanels s) @ [updatedPanel]))))
                       s1)
           else
             let newPanel = \<lparr>collectionPath = op_collectionPath props,
                               entityId = op_entityId props,
                               selectedSubpath = op_selectedSubpath props,
                               copy = Some (op_copy props \<noteq> None \<and> the (op_copy props)),
                               sidePanelKey = Some key\<rparr>
             in Inr (history_push newPath
                       (Some (LocState (Some (mainLocation s))
                                (Some (sidePanels s @ [newPanel]))))
                       s1))"

text \<open>
  The two guards of \<^verbatim>\<open>open\<close>, named: the call throws when a copy is requested without
  a (truthy) entity id; it updates the topmost panel in place when a truthy entity id is
  given and the topmost panel has the same collection path and the same entity id.
\<close>

definition throws_on :: "open_props \<Rightarrow> bool" where
  "throws_on props \<longleftrightarrow> truthy_bool (op_copy props) \<and> \<not> truthy_string (op_entityId props)"

definition updates_in_place :: "open_props \<Rightarrow> provider \<Rightarrow> bool" where
  "updates_in_place props s \<longleftrightarrow>
     truthy_string (op_entityId props) \<and> sidePanels s \<noteq> [] \<and>
     collectionPath (last (sidePanels s)) = op_collectionPath props \<and>
     entityId (last (sidePanels s)) = op_entityId props"

text \<open>The values \<^verbatim>\<open>open\<close> computes on its way, named after the source's locals.\<close>

definition open_key :: "helpers \<Rightarrow> open_props \<Rightarrow> string" where
  "open_key hp props = getSidePanelKey hp (op_collectionPath props) (op_entityId props)"

definition updated_panel :: "helpers \<Rightarrow> open_props \<Rightarrow> panel \<Rightarrow> panel" where
  "updated_panel hp props l =
     l\<lparr>sidePanelKey := Some (open_key hp props), selectedSubpath := op_selectedSubpath props\<rparr>"

definition new_panel :: "helpers \<Rightarrow> open_props \<Rightarrow> panel" where
  "new_panel hp props =
     \<lparr>collectionPath = op_collectionPath props,
      entityId = op_entityId props,
      selectedSubpath = op_selectedSubpath props,
      copy = Some (truthy_bool (op_copy props)),
      sidePanelKey = Some (open_key hp props)\<rparr>"

definition register_override :: "helpers \<Rightarrow> open_props \<Rightarrow> provider \<Rightarrow> provider" where
  "register_override hp props s =
     (if op_schema props \<noteq> None \<or> op_permissions props \<noteq> None \<or> op_subcollections props \<noteq> None
      then s\<lparr>schemasRegistry :=
              setOverride (open_key hp props)
                \<lparr>ov_permissions = op_permissions props,
                 ov_schema = op_schema props,
                 ov_subcollections = op_subcollections props,
                 ov_overrideSchemaResolver = op_overrideSchemaResolver props\<rparr>
                (schemasRegistry s)\<rparr>
      else s)"

definition open_path :: "helpers \<Rightarrow> open_props \<Rightarrow> string" where
  "open_path hp props =
     (if truthy_string (op_entityId props)
      then getEntityPath hp (the (op_entityId props)) (op_collectionPath props)
             (op_selectedSubpath props)
      else getRouterNewEntityPath hp (op_collectionPath props))"

text \<open>
  The panel stack a location stands for once the listener has run: the panels of its
  state, or none. A provider is in step with its history when its stack is the one of
  the current location, as it is after every notification.
\<close>

definition shown_panels :: "location \<Rightarrow> panel list" where
  "shown_panels l = (case location_panels (Some l) of None \<Rightarrow> [] | Some ps \<Rightarrow> ps)"

definition in_step :: "provider \<Rightarrow> bool" where
  "in_step s \<longleftrightarrow> sidePanels s = shown_panels (current (hist s))"

subsection \<open>Concrete inputs\<close>

definition ex_helpers :: helpers where
  "ex_helpers =
     \<lparr>getSidePanelKey = (\<lambda>cp eid. case eid of None \<Rightarrow> cp | Some e \<Rightarrow> cp @ ''/'' @ e),
      getEntityPath = (\<lambda>eid cp sub. ''/c/'' @ cp @ ''/'' @ eid @
                         (case sub of None \<Rightarrow> [] | Some x \<Rightarrow> ''/'' @ x)),
      getRouterNewEntityPath = (\<lambda>cp. ''/c/'' @ cp @ ''#new''),
      getCMSPathFrom = (\<lambda>cp. ''/c/'' @ cp)\<rparr>"

definition ex_panel :: "string \<Rightarrow> string option \<Rightarrow> panel" where
  "ex_panel cp eid =
     \<lparr>collectionPath = cp, entityId = eid, selectedSubpath = None, copy = Some False,
      sidePanelKey = None\<rparr>"

definition ex_props :: "string \<Rightarrow> string option \<Rightarrow> bool option \<Rightarrow> open_props" where
  "ex_props cp eid cpy =
     \<lparr>op_collectionPath = cp, op_entityId = eid, op_selectedSubpath = None, op_copy = cpy,
      op_schema = None, op_permissions = None, op_subcollections = None,
      op_overrideSchemaResolver = None\<rparr>"

text \<open>A provider freshly started on a URL: the given stack, one history entry, no state.\<close>

definition ex_started :: "string \<Rightarrow> panel list \<Rightarrow> provider" where
  "ex_started url ps =
     \<lparr>sidePanels = ps, schemasRegistry = Map.empty,
      hist = \<lparr>past = [], current = Location url None, future = []\<rparr>\<rparr>"

text \<open>A provider whose current entry was written by \<^verbatim>\<open>open\<close> with the given stack.\<close>

definition ex_opened :: "string \<Rightarrow> panel list \<Rightarrow> provider" where
  "ex_opened url ps =
     \<lparr>sidePanels = ps, schemasRegistry = Map.empty,
      hist = \<lparr>past = [Location ''/c/products'' None],
              current = Location url
                (Some (LocState (Some (Location ''/c/products'' None)) (Some ps))),
              future = []\<rparr>\<rparr>"



definition ex_keyed_panel :: "string \<Rightarrow> string \<Rightarrow> string \<Rightarrow> panel" where
  "ex_keyed_panel cp eid key = (ex_panel cp (Some eid))\<lparr>sidePanelKey := Some key\<rparr>"

definition ex_override :: schema_override where
  "ex_override =
     \<lparr>ov_permissions = None, ov_schema = Some (EntitySchema ''product''),
      ov_subcollections = None, ov_overrideSchemaResolver = None\<rparr>"

text \<open>A provider with two overrides registered.\<close>

definition ex_with_overrides :: provider where
  "ex_with_overrides =
     (ex_started ''/c/products'' [])\<lparr>schemasRegistry :=
        [''products/p1'' \<mapsto> ex_override, ''users/u1'' \<mapsto> ex_override]\<rparr>"

section \<open>Building the panel stack from a URL (\<^verbatim>\<open>buildSidePanelsFromUrl\<close>)\<close>

text \<open>
  \<^verbatim>\<open>NavigationViewEntry\<close> is declared in \<^verbatim>\<open>../core/navigation\<close>: a variant tagged
  \<^verbatim>\<open>"collection"\<close>, \<^verbatim>\<open>"entity"\<close> or \<^verbatim>\<open>"custom_view"\<close>. The fields are the ones the
  sources read: the full path and the descriptor of a collection entry; the entity id,
  the collection path, the full path and the parent collection of an entity entry; the
  full path and the view of a custom view entry.
\<close>

datatype NavigationViewEntry =
    is_collection: NavigationViewCollection string EntityCollection
  | is_entity: NavigationViewEntity string string string EntityCollection
  | is_custom_view: NavigationViewCustom string EntityCustomView

text \<open>
  \<^verbatim>\<open>const lastSidePanel = sidePanels[sidePanels.length - 1];
  if (lastSidePanel) lastSidePanel.selectedSubpath = ...\<close>:
  the last panel of the array is updated in place; on an empty array the read yields
  \<^verbatim>\<open>undefined\<close> and nothing is written.
\<close>

definition set_last_subpath :: "string \<Rightarrow> panel list \<Rightarrow> panel list" where
  "set_last_subpath sub ps =
     (if ps = [] then [] else butlast ps @ [(last ps)\<lparr>selectedSubpath := Some sub\<rparr>])"

text \<open>
  The body of the \<^verbatim>\<open>for\<close> loop at index \<open>i\<close>, on the loop's two variables
  \<^verbatim>\<open>sidePanels\<close> and \<^verbatim>\<open>lastCollectionPath\<close>.
\<close>

definition build_step ::
  "NavigationViewEntry list \<Rightarrow> nat \<Rightarrow> panel list \<times> string \<Rightarrow> panel list \<times> string" where
  "build_step navigationViewsForPath i st =
     (let sidePanels = fst st;
          lastCollectionPath = snd st;
          navigationEntry = navigationViewsForPath ! i;
          lastCollectionPath' =
            (case navigationEntry of
               NavigationViewCollection fullPath c \<Rightarrow> fullPath
             | _ \<Rightarrow> lastCollectionPath);
          sidePanels' =
            (if i > 0 then
               let previousEntry = navigationViewsForPath ! (i - 1)
               in (case navigationEntry of
                     NavigationViewEntity eid cp fullPath parent \<Rightarrow>
                       if is_collection previousEntry
                       then sidePanels @
                            [\<lparr>collectionPath = cp, entityId = Some eid, selectedSubpath = None,
                              copy = Some False, sidePanelKey = None\<rparr>]
                       else sidePanels
                   | NavigationViewCustom fullPath v \<Rightarrow>
                       if is_entity previousEntry
                       then set_last_subpath (view_path v) sidePanels
                       else sidePanels
                   | NavigationViewCollection fullPath c \<Rightarrow>
                       if is_entity previousEntry
                       then set_last_subpath (relativePath c) sidePanels
                       else sidePanels)
             else sidePanels)
      in (sidePanels', lastCollectionPath'))"

text \<open>The loop \<^verbatim>\<open>for (let i = 0; i < navigationViewsForPath.length; i++)\<close>, from index \<open>i\<close> on.\<close>

function build_loop ::
  "NavigationViewEntry list \<Rightarrow> nat \<Rightarrow> panel list \<times> string \<Rightarrow> panel list \<times> string" where
  "build_loop es i st =
     (if i < length es then build_loop es (Suc i) (build_step es i st) else st)"
  by pat_completeness auto
termination
  by (relation "measure (\<lambda>(es, i, st). length es - i)") auto

text \<open>
  \<^verbatim>\<open>buildSidePanelsFromUrl\<close>. The resolver \<^verbatim>\<open>getNavigationEntriesFromPathInternal\<close> is
  the first argument; \<open>buildSidePanels\<close> is the function's body from the resolved
  entries on.
\<close>

definition buildSidePanels :: "NavigationViewEntry list \<Rightarrow> bool \<Rightarrow> panel list" where
  "buildSidePanels navigationViewsForPath newFlag =
     (let st = build_loop navigationViewsForPath 0 ([], '''');
          sidePanels = fst st;
          lastCollectionPath = snd st
      in if newFlag
         then sidePanels @
              [\<lparr>collectionPath = lastCollectionPath, entityId = None, selectedSubpath = None,
                copy = Some False, sidePanelKey = None\<rparr>]
         else sidePanels)"

definition buildSidePanelsFromUrl ::
  "(string \<Rightarrow> EntityCollection list \<Rightarrow> NavigationViewEntry list) \<Rightarrow>
     string \<Rightarrow> EntityCollection list \<Rightarrow> bool \<Rightarrow> panel list" where
  "buildSidePanelsFromUrl getNavigationEntries path allCollections newFlag =
     buildSidePanels (getNavigationEntries path allCollections) newFlag"

text \<open>
  The words of the claim about the loop. An entry creates a panel when it is an entity
  entry at a position \<open>i > 0\<close> whose predecessor is a collection entry; it selects a
  subpath when it is a collection or custom view entry at a position \<open>i > 0\<close> whose
  predecessor is an entity entry. \<open>panels_upto es n\<close> is the stack once the entries
  before position \<open>n\<close> have been handled.
\<close>

definition creates_panel :: "NavigationViewEntry list \<Rightarrow> nat \<Rightarrow> bool" where
  "creates_panel es i \<longleftrightarrow> 0 < i \<and> is_entity (es ! i) \<and> is_collection (es ! (i - 1))"

definition selects_subpath :: "NavigationViewEntry list \<Rightarrow> nat \<Rightarrow> bool" where
  "selects_subpath es i \<longleftrightarrow>
     0 < i \<and> (is_collection (es ! i) \<or> is_custom_view (es ! i)) \<and> is_entity (es ! (i - 1))"

definition entity_panel :: "NavigationViewEntry \<Rightarrow> panel" where
  "entity_panel e =
     (case e of
        NavigationViewEntity eid cp fullPath parent \<Rightarrow>
          \<lparr>collectionPath = cp, entityId = Some eid, selectedSubpath = None,
           copy = Some False, sidePanelKey = None\<rparr>
      | _ \<Rightarrow> \<lparr>collectionPath = '''', entityId = None, selectedSubpath = None,
               copy = None, sidePanelKey = None\<rparr>)"

definition entry_subpath :: "NavigationViewEntry \<Rightarrow> string" where
  "entry_subpath e =
     (case e of
        NavigationViewCollection fullPath c \<Rightarrow> relativePath c
      | NavigationViewCustom fullPath v \<Rightarrow> view_path v
      | _ \<Rightarrow> '''')"

definition new_entity_panel :: "string \<Rightarrow> panel" where
  "new_entity_panel cp =
     \<lparr>collectionPath = cp, entityId = None, selectedSubpath = None,
      copy = Some False, sidePanelKey = None\<rparr>"

fun last_collection_path :: "NavigationViewEntry list \<Rightarrow> string" where
  "last_collection_path [] = ''''"
| "last_collection_path (e # es) =
     (if list_ex is_collection es then last_collection_path es
      else (case e of NavigationViewCollection fullPath c \<Rightarrow> fullPath | _ \<Rightarrow> ''''))"

definition panels_upto :: "NavigationViewEntry list \<Rightarrow> nat \<Rightarrow> panel list" where
  "panels_upto es n = fst (foldl (\<lambda>st i. build_step es i st) ([], '''') [0..<n])"

text \<open>What identifies a panel apart from its selected subpath.\<close>

definition panel_ident :: "panel \<Rightarrow> string \<times> string option \<times> bool option \<times> string option" where
  "panel_ident p = (collectionPath p, entityId p, copy p, sidePanelKey p)"

definition ex_locales :: EntityCollection where
  "ex_locales = EntityCollection ''locales'' [] []"

definition ex_products :: EntityCollection where
  "ex_products = EntityCollection ''products'' [EntityCustomView ''custom_view''] [ex_locales]"

text \<open>The entries of \<^verbatim>\<open>products/p1/locales/es\<close>.\<close>

definition ex_entries :: "NavigationViewEntry list" where
  "ex_entries =
     [NavigationViewCollection ''products'' ex_products,
      NavigationViewEntity ''p1'' ''products'' ''products/p1'' ex_products,
      NavigationViewCollection ''products/p1/locales'' ex_locales,
      NavigationViewEntity ''es'' ''products/p1/locales'' ''products/p1/locales/es'' ex_locales]"

section \<open>The collection fetch hook (\<^verbatim>\<open>useCollectionFetch\<close>)\<close>

text \<open>
  An entity as the hook reads it: its id and its values, which may be missing
  (\<^verbatim>\<open>!!e.values\<close>).
\<close>

record Entity =
  entity_id :: string
  entity_values :: "(string \<times> string) list option"

text \<open>The props the hook's data depends on, and the hook's four state variables.\<close>

record fetch_props =
  entitiesDisplayedFirst :: "Entity list option"
  itemCount :: "nat option"

record fetch_state =
  data :: "Entity list"
  dataLoading :: bool
  dataLoadingError :: "error option"
  noMoreToLoad :: bool

text \<open>
  \<^verbatim>\<open>entitiesDisplayedFirst ? entitiesDisplayedFirst.filter(e => !!e.values) : []\<close>.
\<close>

definition initialEntities :: "fetch_props \<Rightarrow> Entity list" where
  "initialEntities props =
     (case entitiesDisplayedFirst props of
        None \<Rightarrow> []
      | Some es \<Rightarrow> filter (\<lambda>e. entity_values e \<noteq> None) es)"

text \<open>
  \<^verbatim>\<open>updateData\<close>, as the list it passes to \<^verbatim>\<open>setData\<close>. The test
  \<^verbatim>\<open>!initialEntities\<close> is on an array, and an array is truthy also when empty.
\<close>

definition truthy_array :: "'a list \<Rightarrow> bool" where
  "truthy_array xs = True"

definition updateData :: "fetch_props \<Rightarrow> Entity list \<Rightarrow> Entity list" where
  "updateData props entities =
     (if \<not> truthy_array (initialEntities props) then entities
      else
        let displayedFirstId = set (map entity_id (initialEntities props))
        in initialEntities props @ filter (\<lambda>e. entity_id e \<notin> displayedFirstId) entities)"

text \<open>
  The state at the first render, the effect that subscribes to the collection
  (\<^verbatim>\<open>setDataLoading(true)\<close>), and the two callbacks handed to \<^verbatim>\<open>listenCollection\<close>.
\<close>

definition initial_fetch_state :: "fetch_props \<Rightarrow> fetch_state" where
  "initial_fetch_state props =
     \<lparr>data = initialEntities props, dataLoading = False, dataLoadingError = None,
      noMoreToLoad = False\<rparr>"

definition subscribe :: "fetch_state \<Rightarrow> fetch_state" where
  "subscribe st = st\<lparr>dataLoading := True\<rparr>"

definition on_entities :: "fetch_props \<Rightarrow> Entity list \<Rightarrow> fetch_state \<Rightarrow> fetch_state" where
  "on_entities props entities st =
     st\<lparr>dataLoading := False,
        dataLoadingError := None,
        data := updateData props entities,
        noMoreToLoad := (case itemCount props of
                           None \<Rightarrow> True
                         | Some n \<Rightarrow> n = 0 \<or> length entities < n)\<rparr>"

definition on_error :: "error \<Rightarrow> fetch_state \<Rightarrow> fetch_state" where
  "on_error e st = st\<lparr>dataLoading := False, data := [], dataLoadingError := Some e\<rparr>"

text \<open>
  What the collection listener does to a mounted hook: it delivers a batch of entities or
  an error. \<open>useCollectionFetch props evs\<close> is the state the hook returns after the
  listener's events \<open>evs\<close>, for one subscription with the props unchanged.
\<close>

datatype listener_event = Delivered "Entity list" | Failed error

fun listener_step :: "fetch_props \<Rightarrow> fetch_state \<Rightarrow> listener_event \<Rightarrow> fetch_state" where
  "listener_step props st (Delivered entities) = on_entities props entities st"
| "listener_step props st (Failed e) = on_error e st"

definition useCollectionFetch :: "fetch_props \<Rightarrow> listener_event list \<Rightarrow> fetch_state" where
  "useCollectionFetch props evs =
     foldl (listener_step props) (subscribe (initial_fetch_state props)) evs"

text \<open>The last event was not an error: the hook was just mounted, or a batch came last.\<close>

definition no_error_last :: "listener_event list \<Rightarrow> bool" where
  "no_error_last evs \<longleftrightarrow>
     evs = [] \<or> (case last evs of Delivered entities \<Rightarrow> True | Failed e \<Rightarrow> False)"

definition ex_entity :: "string \<Rightarrow> Entity" where
  "ex_entity i = \<lparr>entity_id = i, entity_values = Some [(''name'', i)]\<rparr>"

definition ex_fetch_props :: fetch_props where
  "ex_fetch_props =
     \<lparr>entitiesDisplayedFirst =
        Some [ex_entity ''b'', \<lparr>entity_id = ''z'', entity_values = None\<rparr>],
      itemCount = Some 10\<rparr>"

definition ex_ordered_props :: fetch_props where
  "ex_ordered_props =
     \<lparr>entitiesDisplayedFirst =
        Some [ex_entity ''c'', \<lparr>entity_id = ''z'', entity_values = None\<rparr>, ex_entity ''a''],
      itemCount = None\<rparr>"

section \<open>The path resolver (\<^verbatim>\<open>../core/navigation\<close>)\<close>

text \<open>
  Modelled from the spec: \<^verbatim>\<open>getCollectionViewFromPath\<close> is imported from
  \<^verbatim>\<open>../core/navigation\<close>, which is not among the sources; only its test is. The spec:
  given a slash-delimited path and a tree of collection descriptors, walk the path,
  alternating collection segment and entity id segment, matching each collection segment
  against the children of the currently matched collection (or the root list at the
  start); a segment after an entity id that matches no subcollection, and an unknown root
  segment, yield no match, without an error; if the total segment count is even,
  resolution fails with an error that names the path. The test fixes what the spec
  leaves open. The error's text is the one it expects. The relative path of a descriptor
  may span several segments (\<^verbatim>\<open>sites/es/products\<close>, and
  \<^verbatim>\<open>products/id/subcollection_inline\<close> beside \<^verbatim>\<open>products\<close>), so a descriptor is
  matched against a run of an odd number of segments, the longest run first; the segment
  after the run is the entity id, and what follows it is resolved in the subcollections
  of the matched descriptor. When that fails, the next shorter run is tried.
\<close>

fun split_on :: "char \<Rightarrow> string \<Rightarrow> string list" where
  "split_on sep [] = [[]]"
| "split_on sep (x # xs) =
     (if x = sep then [] # split_on sep xs
      else (case split_on sep xs of
              [] \<Rightarrow> [[x]]
            | seg # segs \<Rightarrow> (x # seg) # segs))"

definition split_path :: "string \<Rightarrow> string list" where
  "split_path path = split_on (CHR ''/'') path"

fun join_segments :: "string list \<Rightarrow> string" where
  "join_segments [] = []"
| "join_segments [seg] = seg"
| "join_segments (seg # seg' # segs) = seg @ ''/'' @ join_segments (seg' # segs)"

definition find_collection :: "string \<Rightarrow> EntityCollection list \<Rightarrow> EntityCollection option" where
  "find_collection key cs = find (\<lambda>c. relativePath c = key) cs"

text \<open>
  \<open>match_collection cs segs k\<close>: the descriptors \<open>cs\<close> are tried on the runs of the first
  \<open>k\<close>, \<open>k - 2\<close>, ... segments of \<open>segs\<close>. A run that is all of \<open>segs\<close> yields its
  descriptor; a shorter one hands the segments after the entity id to the descriptor's
  subcollections.
\<close>

function match_collection ::
  "EntityCollection list \<Rightarrow> string list \<Rightarrow> nat \<Rightarrow> EntityCollection option" where
  "match_collection cs segs k =
     (if k = 0 then None
      else
        (case find_collection (join_segments (take k segs)) cs of
           None \<Rightarrow> match_collection cs segs (k - 2)
         | Some c \<Rightarrow>
             if length segs \<le> k then Some c
             else
               (case match_collection (subcollections c) (drop (Suc k) segs)
                       (length segs - Suc k) of
                  Some r \<Rightarrow> Some r
                | None \<Rightarrow> match_collection cs segs (k - 2))))"
  by pat_completeness auto
termination
  by (relation "measures [\<lambda>(cs, segs, k). length segs, \<lambda>(cs, segs, k). k]") auto

declare match_collection.simps [simp del]

definition getCollectionViewFromPath ::
  "string \<Rightarrow> EntityCollection list \<Rightarrow> error + EntityCollection option" where
  "getCollectionViewFromPath path collectionViews =
     (let subpaths = split_path path
      in if even (length subpaths)
         then Inl (Error (''Collection paths must have an odd number of segments: '' @ path))
         else Inr (match_collection collectionViews subpaths (length subpaths)))"

text \<open>
  A site configuration on which the resolver meets every expectation of
  \<^verbatim>\<open>navigation.test.ts\<close>: products with their locales, the products of a site under a key
  of three segments, with locales too, and an inline subcollection under a key of its own.
\<close>

definition ex_site_products :: EntityCollection where
  "ex_site_products = EntityCollection ''sites/es/products'' [] [ex_locales]"

definition ex_inline :: EntityCollection where
  "ex_inline = EntityCollection ''products/id/subcollection_inline'' [] []"

definition ex_site_config :: "EntityCollection list" where
  "ex_site_config = [ex_products, ex_site_products, ex_inline]"

section \<open>Properties of the side-panel controller\<close>

subsection \<open>The history operations\<close>



lemma history_go_back_none:
  assumes "past (hist s) = []"
  shows "history_go (- 1) s = s"
  using assms by (simp add: history_go_def Let_def)

lemma sidePanels_listener:
  "sidePanels (history_listener loc s) =
     (case location_panels loc of None \<Rightarrow> [] | Some ps \<Rightarrow> ps)"
  by (simp add: history_listener_def Let_def split: option.splits)

lemma hist_notify: "hist (notify s) = hist s"
  by (simp add: notify_def history_listener_def Let_def split: option.splits)

lemma sidePanels_notify: "sidePanels (notify s) = shown_panels (current (hist s))"
  by (simp add: notify_def sidePanels_listener shown_panels_def)

lemma in_step_notify: "in_step (notify s)"
  by (simp add: in_step_def hist_notify sidePanels_notify)

lemma hist_history_replace:
  "hist (history_replace path st s) = (hist s)\<lparr>current := Location path st\<rparr>"
  by (simp add: history_replace_def hist_notify)

lemma hist_history_push:
  "hist (history_push path st s) =
     \<lparr>past = current (hist s) # past (hist s), current = Location path st, future = []\<rparr>"
  by (simp add: history_push_def hist_notify)

lemma sidePanels_history_replace:
  "sidePanels (history_replace path st s) = shown_panels (Location path st)"
  by (simp add: history_replace_def sidePanels_notify)

lemma sidePanels_history_push:
  "sidePanels (history_push path st s) = shown_panels (Location path st)"
  by (simp add: history_push_def sidePanels_notify)

lemma shown_panels_written:
  "shown_panels (Location path (Some (LocState m (Some ps)))) = ps"
  by (simp add: shown_panels_def location_panels_def)


subsection \<open>The listener and the registry\<close>

lemma set_customSchemaKeys:
  "set (map the (filter truthy_string (map sidePanelKey ps))) =
     {k. k \<noteq> [] \<and> (\<exists>p \<in> set ps. sidePanelKey p = Some k)}"
proof (induction ps)
  case Nil
  then show ?case by simp
next
  case (Cons p ps)
  then show ?case
    by (cases "sidePanelKey p") (auto simp: truthy_string_def)
qed

lemma registry_listener:
  "schemasRegistry (history_listener loc s) k =
     (case location_panels loc of
        None \<Rightarrow> None
      | Some ps \<Rightarrow> if k \<noteq> [] \<and> (\<exists>p \<in> set ps. sidePanelKey p = Some k)
                   then schemasRegistry s k else None)"
proof (cases "location_panels loc")
  case None
  then show ?thesis
    by (simp add: history_listener_def removeAllOverridesExcept_def)
next
  case (Some ps)
  have "schemasRegistry (history_listener loc s) k =
          (if k \<in> set (map the (filter truthy_string (map sidePanelKey ps)))
           then schemasRegistry s k else None)"
    using Some by (simp add: history_listener_def removeAllOverridesExcept_def Let_def)
  then show ?thesis
    unfolding set_customSchemaKeys using Some by simp
qed


subsection \<open>\<^verbatim>\<open>open\<close>, branch by branch\<close>

lemma hist_register_override: "hist (register_override hp props s) = hist s"
  by (simp add: register_override_def)

lemma open_unfold:
  "open hp props s =
     (if throws_on props
      then Inl (Error ''If you want to copy an entity you need to provide an entityId'')
      else if updates_in_place props s
      then Inr (history_replace (open_path hp props)
                  (Some (LocState (Some (mainLocation s))
                     (Some (butlast (sidePanels s) @
                            [updated_panel hp props (last (sidePanels s))]))))
                  (register_override hp props s))
      else Inr (history_push (open_path hp props)
                  (Some (LocState (Some (mainLocation s))
                     (Some (sidePanels s @ [new_panel hp props]))))
                  (register_override hp props s)))"
proof -
  have c: "(op_copy props \<noteq> None \<and> the (op_copy props)) = truthy_bool (op_copy props)"
    by (cases "op_copy props") (simp_all add: truthy_bool_def)
  have g: "(truthy_string (op_entityId props) \<and>
              (case (if length (sidePanels s) > 0 then Some (last (sidePanels s)) else None) of
                 None \<Rightarrow> False
               | Some l \<Rightarrow> collectionPath l = op_collectionPath props
                           \<and> entityId l = op_entityId props))
            = updates_in_place props s"
    by (auto simp: updates_in_place_def)
  show ?thesis
  proof (cases "updates_in_place props s")
    case True
    then have "truthy_string (op_entityId props)"
      by (simp add: updates_in_place_def)
    with True show ?thesis
      unfolding open_def Let_def c g
      by (simp add: throws_on_def open_path_def register_override_def updated_panel_def
          open_key_def)
  next
    case False
    then show ?thesis
      unfolding open_def Let_def c g
      by (simp add: throws_on_def open_path_def register_override_def new_panel_def
          open_key_def)
  qed
qed

lemma open_in_place:
  assumes "\<not> throws_on props" and "updates_in_place props s"
  shows "\<exists>s'. open hp props s = Inr s' \<and>
           sidePanels s' = butlast (sidePanels s) @ [updated_panel hp props (last (sidePanels s))] \<and>
           hist s' = (hist s)\<lparr>current :=
             Location (open_path hp props)
               (Some (LocState (Some (mainLocation s)) (Some (sidePanels s'))))\<rparr>"
  using assms
  by (simp add: open_unfold hist_history_replace sidePanels_history_replace
      shown_panels_written hist_register_override)

lemma open_pushes:
  assumes "\<not> throws_on props" and "\<not> updates_in_place props s"
  shows "\<exists>s'. open hp props s = Inr s' \<and>
           sidePanels s' = sidePanels s @ [new_panel hp props] \<and>
           hist s' = \<lparr>past = current (hist s) # past (hist s),
                       current = Location (open_path hp props)
                         (Some (LocState (Some (mainLocation s)) (Some (sidePanels s')))),
                       future = []\<rparr>"
  using assms
  by (simp add: open_unfold hist_history_push sidePanels_history_push
      shown_panels_written hist_register_override)

subsection \<open>\<^verbatim>\<open>close\<close>, branch by branch\<close>



section \<open>The claims about the side-panel controller\<close>

text \<open>
  C8. Calling \<^verbatim>\<open>close\<close> when the panel stack is empty is a no-op: the provider state,
  that is the panel stack, the history and the override registry, is returned as it was.
\<close>

theorem close_empty_noop:
  "sidePanels s = [] \<Longrightarrow> close hp s = s"
  by (simp add: close_def)

theorem close_empty_noop_witness:
  "sidePanels (ex_started ''/c/products'' []) = [] \<and>
   sidePanels (close ex_helpers (ex_started ''/c/products'' [])) = [] \<and>
   hist (close ex_helpers (ex_started ''/c/products'' [])) =
     \<lparr>past = [], current = Location ''/c/products'' None, future = []\<rparr> \<and>
   schemasRegistry (close ex_helpers (ex_started ''/c/products'' [])) = Map.empty"
  using close_empty_noop [of "ex_started ''/c/products'' []" ex_helpers]
  by (simp add: ex_started_def)




text \<open>
  C2, as the code has it. A call to \<^verbatim>\<open>open\<close> that asks for a copy without an entity id
  throws. Every other call returns, and: when a non-empty entity id is given and the
  topmost panel has the same collection path and the same entity id, the topmost panel
  is updated in place (its key and selected subpath are set) and the current history
  entry is replaced, the stack length unchanged; otherwise, also whenever no entity id is
  given, a new panel is appended and a new history entry is pushed, so that the stack is
  one longer.
\<close>

theorem open_replaces_or_pushes:
  assumes "\<not> throws_on props"
  shows "\<exists>s'. open hp props s = Inr s' \<and>
           (if updates_in_place props s
            then sidePanels s' =
                   butlast (sidePanels s) @ [updated_panel hp props (last (sidePanels s))] \<and>
                 length (sidePanels s') = length (sidePanels s) \<and>
                 hist s' = (hist s)\<lparr>current :=
                   Location (open_path hp props)
                     (Some (LocState (Some (mainLocation s)) (Some (sidePanels s'))))\<rparr> \<and>
                 length (entries (hist s')) = length (entries (hist s))
            else sidePanels s' = sidePanels s @ [new_panel hp props] \<and>
                 length (sidePanels s') = Suc (length (sidePanels s)) \<and>
                 hist s' = \<lparr>past = current (hist s) # past (hist s),
                             current = Location (open_path hp props)
                               (Some (LocState (Some (mainLocation s)) (Some (sidePanels s')))),
                             future = []\<rparr> \<and>
                 length (past (hist s')) = Suc (length (past (hist s))))"
proof (cases "updates_in_place props s")
  case True
  then have ne: "sidePanels s \<noteq> []" by (simp add: updates_in_place_def)
  from open_in_place [OF assms True, of hp] obtain s' where
    o: "open hp props s = Inr s'" and
    sp: "sidePanels s' = butlast (sidePanels s) @ [updated_panel hp props (last (sidePanels s))]" and
    h: "hist s' = (hist s)\<lparr>current :=
             Location (open_path hp props)
               (Some (LocState (Some (mainLocation s)) (Some (sidePanels s'))))\<rparr>"
    by blast
  have "length (sidePanels s') = length (sidePanels s)"
    using ne by (simp add: sp)
  moreover have "length (entries (hist s')) = length (entries (hist s))"
    by (simp add: h entries_def)
  ultimately show ?thesis using True o sp h by simp
next
  case False
  from open_pushes [OF assms False, of hp] obtain s' where
    o: "open hp props s = Inr s'" and
    sp: "sidePanels s' = sidePanels s @ [new_panel hp props]" and
    h: "hist s' = \<lparr>past = current (hist s) # past (hist s),
                       current = Location (open_path hp props)
                         (Some (LocState (Some (mainLocation s)) (Some (sidePanels s')))),
                       future = []\<rparr>"
    by blast
  have "length (past (hist s')) = Suc (length (past (hist s)))"
    by (simp add: h)
  then show ?thesis using False o sp h by simp
qed

theorem open_replaces_or_pushes_witness:
  "\<not> throws_on (ex_props ''products'' (Some ''p1'') None) \<and>
   updates_in_place (ex_props ''products'' (Some ''p1'') None)
     (ex_opened ''/c/products/p1'' [ex_panel ''products'' (Some ''p1'')]) \<and>
   (\<exists>s'. open ex_helpers (ex_props ''products'' (Some ''p1'') None)
            (ex_opened ''/c/products/p1'' [ex_panel ''products'' (Some ''p1'')]) = Inr s' \<and>
         length (sidePanels s') = 1 \<and> length (past (hist s')) = 1) \<and>
   \<not> throws_on (ex_props ''products'' (Some ''p2'') (Some True)) \<and>
   \<not> updates_in_place (ex_props ''products'' (Some ''p2'') (Some True))
     (ex_opened ''/c/products/p1'' [ex_panel ''products'' (Some ''p1'')]) \<and>
   (\<exists>s'. open ex_helpers (ex_props ''products'' (Some ''p2'') (Some True))
            (ex_opened ''/c/products/p1'' [ex_panel ''products'' (Some ''p1'')]) = Inr s' \<and>
         length (sidePanels s') = 2 \<and> length (past (hist s')) = 2)"
proof -
  let ?s = "ex_opened ''/c/products/p1'' [ex_panel ''products'' (Some ''p1'')]"
  let ?same = "ex_props ''products'' (Some ''p1'') None"
  let ?other = "ex_props ''products'' (Some ''p2'') (Some True)"
  have t1: "\<not> throws_on ?same"
    by (simp add: throws_on_def ex_props_def truthy_bool_def)
  have u1: "updates_in_place ?same ?s"
    by (simp add: updates_in_place_def ex_props_def ex_opened_def ex_panel_def truthy_string_def)
  have t2: "\<not> throws_on ?other"
    by (simp add: throws_on_def ex_props_def truthy_bool_def truthy_string_def)
  have u2: "\<not> updates_in_place ?other ?s"
    by (simp add: updates_in_place_def ex_props_def ex_opened_def ex_panel_def)
  have l: "length (sidePanels ?s) = 1" "length (past (hist ?s)) = 1"
    by (simp_all add: ex_opened_def)
  from open_replaces_or_pushes [OF t1, of ex_helpers ?s] u1 l
  have r1: "\<exists>s'. open ex_helpers ?same ?s = Inr s' \<and>
         length (sidePanels s') = 1 \<and> length (past (hist s')) = 1"
    by auto
  from open_replaces_or_pushes [OF t2, of ex_helpers ?s] u2 l
  have r2: "\<exists>s'. open ex_helpers ?other ?s = Inr s' \<and>
         length (sidePanels s') = 2 \<and> length (past (hist s')) = 2"
    by auto
  from t1 u1 r1 t2 u2 r2 show ?thesis by blast
qed

text \<open>
  The claim as it was stated fails on two inputs. With no panel open, a call that asks
  for a copy and gives no entity id is one of the "other" calls, yet it throws and
  appends nothing. And a call without an entity id on a stack whose topmost panel has
  the same collection path and, like the call, no entity id, pushes a second panel
  instead of updating the first.
\<close>

theorem open_replaces_or_pushes_counterexample:
  "sidePanels (ex_started ''/c/products'' []) = [] \<and>
   open ex_helpers (ex_props ''products'' None (Some True)) (ex_started ''/c/products'' []) =
     Inl (Error ''If you want to copy an entity you need to provide an entityId'') \<and>
   op_entityId (ex_props ''products'' None None) =
     entityId (last (sidePanels (ex_started ''/c/products#new'' [ex_panel ''products'' None]))) \<and>
   op_collectionPath (ex_props ''products'' None None) =
     collectionPath (last (sidePanels (ex_started ''/c/products#new'' [ex_panel ''products'' None]))) \<and>
   map_sum id (\<lambda>s'. length (sidePanels s'))
     (open ex_helpers (ex_props ''products'' None None)
        (ex_started ''/c/products#new'' [ex_panel ''products'' None])) = Inr 2"
proof -
  have "throws_on (ex_props ''products'' None (Some True))"
    by (simp add: throws_on_def ex_props_def truthy_bool_def truthy_string_def)
  moreover have "\<not> throws_on (ex_props ''products'' None None)"
    by (simp add: throws_on_def ex_props_def truthy_bool_def)
  moreover have "\<not> updates_in_place (ex_props ''products'' None None)
      (ex_started ''/c/products#new'' [ex_panel ''products'' None])"
    by (simp add: updates_in_place_def ex_props_def truthy_string_def)
  ultimately show ?thesis
    by (simp add: open_unfold sidePanels_history_push shown_panels_written)
       (simp add: ex_props_def ex_started_def ex_panel_def)
qed

text \<open>
  C6. After every history navigation event, every override left in the registry is keyed
  by the \<^verbatim>\<open>sidePanelKey\<close> of some panel of the new panel stack. The listener only removes:
  an override that stays is the one that was there, and an override whose (non-empty) key
  is the key of a panel of the new stack stays. When the new location carries no panels,
  the stack and the registry are both emptied. The three history operations notify the
  listener with the new current location, so the same holds after each of them.
\<close>

theorem listener_prunes_registry:
  "(\<forall>k \<in> dom (schemasRegistry (history_listener loc s)).
       \<exists>p \<in> set (sidePanels (history_listener loc s)). sidePanelKey p = Some k) \<and>
   (\<forall>k \<in> dom (schemasRegistry (history_listener loc s)).
       schemasRegistry (history_listener loc s) k = schemasRegistry s k) \<and>
   (\<forall>p \<in> set (sidePanels (history_listener loc s)).
       truthy_string (sidePanelKey p) \<longrightarrow>
       schemasRegistry (history_listener loc s) (the (sidePanelKey p)) =
         schemasRegistry s (the (sidePanelKey p))) \<and>
   (location_panels loc = None \<longrightarrow>
       sidePanels (history_listener loc s) = [] \<and>
       schemasRegistry (history_listener loc s) = Map.empty) \<and>
   (\<forall>ps. location_panels loc = Some ps \<longrightarrow> sidePanels (history_listener loc s) = ps) \<and>
   (\<forall>k \<in> dom (schemasRegistry (notify s)).
       \<exists>p \<in> set (sidePanels (notify s)). sidePanelKey p = Some k)"
proof -
  have prune: "\<forall>k \<in> dom (schemasRegistry (history_listener l t)).
       \<exists>p \<in> set (sidePanels (history_listener l t)). sidePanelKey p = Some k" for l t
    by (auto simp: registry_listener sidePanels_listener dom_def split: option.splits if_splits)
  have same: "\<forall>k \<in> dom (schemasRegistry (history_listener loc s)).
       schemasRegistry (history_listener loc s) k = schemasRegistry s k"
    by (auto simp: registry_listener dom_def split: option.splits if_splits)
  have kept: "\<forall>p \<in> set (sidePanels (history_listener loc s)).
       truthy_string (sidePanelKey p) \<longrightarrow>
       schemasRegistry (history_listener loc s) (the (sidePanelKey p)) =
         schemasRegistry s (the (sidePanelKey p))"
    by (auto simp: registry_listener sidePanels_listener truthy_string_def split: option.splits)
  have none: "location_panels loc = None \<longrightarrow>
       sidePanels (history_listener loc s) = [] \<and>
       schemasRegistry (history_listener loc s) = Map.empty"
    by (auto simp: registry_listener sidePanels_listener)
  have some: "\<forall>ps. location_panels loc = Some ps \<longrightarrow> sidePanels (history_listener loc s) = ps"
    by (simp add: sidePanels_listener)
  from prune [of loc s] same kept none some prune [of "Some (current (hist s))" s]
  show ?thesis unfolding notify_def by blast
qed

theorem listener_prunes_registry_witness:
  "''products/p1'' \<in> dom (schemasRegistry (history_listener
       (Some (Location ''/c/products/p1''
          (Some (LocState None (Some [ex_keyed_panel ''products'' ''p1'' ''products/p1''])))))
       ex_with_overrides)) \<and>
   (\<exists>p \<in> set (sidePanels (history_listener
       (Some (Location ''/c/products/p1''
          (Some (LocState None (Some [ex_keyed_panel ''products'' ''p1'' ''products/p1''])))))
       ex_with_overrides)). sidePanelKey p = Some ''products/p1'') \<and>
   schemasRegistry (history_listener
       (Some (Location ''/c/products/p1''
          (Some (LocState None (Some [ex_keyed_panel ''products'' ''p1'' ''products/p1''])))))
       ex_with_overrides) ''users/u1'' = None \<and>
   schemasRegistry ex_with_overrides ''users/u1'' = Some ex_override \<and>
   location_panels (Some (Location ''/c/products'' None)) = None \<and>
   schemasRegistry (history_listener (Some (Location ''/c/products'' None)) ex_with_overrides)
     = Map.empty"
proof -
  let ?l = "Some (Location ''/c/products/p1''
          (Some (LocState None (Some [ex_keyed_panel ''products'' ''p1'' ''products/p1'']))))"
  let ?n = "Some (Location ''/c/products'' None)"
  have lp: "location_panels ?l = Some [ex_keyed_panel ''products'' ''p1'' ''products/p1'']"
    by (simp add: location_panels_def)
  have k: "sidePanelKey (ex_keyed_panel ''products'' ''p1'' ''products/p1'') = Some ''products/p1''"
    by (simp add: ex_keyed_panel_def)
  have d: "''products/p1'' \<in> dom (schemasRegistry (history_listener ?l ex_with_overrides))"
    by (simp add: dom_def registry_listener lp k ex_with_overrides_def)
  have u: "schemasRegistry (history_listener ?l ex_with_overrides) ''users/u1'' = None"
    by (simp add: registry_listener lp k)
  have u0: "schemasRegistry ex_with_overrides ''users/u1'' = Some ex_override"
    by (simp add: ex_with_overrides_def)
  have n: "location_panels ?n = None"
    by (simp add: location_panels_def)
  from listener_prunes_registry [of ?l ex_with_overrides] d
  have e: "\<exists>p \<in> set (sidePanels (history_listener ?l ex_with_overrides)).
             sidePanelKey p = Some ''products/p1''"
    by blast
  from listener_prunes_registry [of ?n ex_with_overrides] n
  have m: "schemasRegistry (history_listener ?n ex_with_overrides) = Map.empty"
    by blast
  from d e u u0 n m show ?thesis by blast
qed

section \<open>Properties of \<^verbatim>\<open>buildSidePanelsFromUrl\<close>\<close>

lemma build_loop_foldl:
  "i \<le> length es \<Longrightarrow>
     build_loop es i st = foldl (\<lambda>st i. build_step es i st) st [i..<length es]"
proof (induction es i st rule: build_loop.induct)
  case (1 es i st)
  show ?case
  proof (cases "i < length es")
    case True
    then have "[i..<length es] = i # [Suc i..<length es]"
      by (simp add: upt_conv_Cons)
    with True "1.IH" show ?thesis by simp
  next
    case False
    with "1.prems" show ?thesis by simp
  qed
qed

lemma fst_build_step:
  "fst (build_step es i st) =
     (if creates_panel es i then fst st @ [entity_panel (es ! i)]
      else if selects_subpath es i then set_last_subpath (entry_subpath (es ! i)) (fst st)
      else fst st)"
  by (cases "es ! i")
     (simp_all add: build_step_def Let_def creates_panel_def selects_subpath_def
       entity_panel_def entry_subpath_def)

lemma snd_build_step:
  "snd (build_step es i st) =
     (case es ! i of NavigationViewCollection fullPath c \<Rightarrow> fullPath | _ \<Rightarrow> snd st)"
  by (simp add: build_step_def Let_def)

lemma last_collection_path_snoc:
  "last_collection_path (es @ [e]) =
     (case e of NavigationViewCollection fullPath c \<Rightarrow> fullPath
      | _ \<Rightarrow> last_collection_path es)"
proof (induction es)
  case Nil
  then show ?case by (cases e) simp_all
next
  case (Cons x xs)
  then show ?case by (cases e) (auto simp: list_ex_iff)
qed

lemma snd_foldl_build_step:
  "n \<le> length es \<Longrightarrow>
     snd (foldl (\<lambda>st i. build_step es i st) ([], '''') [0..<n]) = last_collection_path (take n es)"
proof (induction n)
  case 0
  then show ?case by simp
next
  case (Suc n)
  then have n: "n < length es" by simp
  then have t: "take (Suc n) es = take n es @ [es ! n]"
    by (simp add: take_Suc_conv_app_nth)
  from Suc n show ?case
    by (simp add: t last_collection_path_snoc snd_build_step split: NavigationViewEntry.splits)
qed

lemma panels_upto_Suc:
  "panels_upto es (Suc i) =
     (if creates_panel es i then panels_upto es i @ [entity_panel (es ! i)]
      else if selects_subpath es i
           then set_last_subpath (entry_subpath (es ! i)) (panels_upto es i)
      else panels_upto es i)"
  by (simp add: panels_upto_def fst_build_step)

lemma map_panel_ident_set_last_subpath:
  "map panel_ident (set_last_subpath sub ps) = map panel_ident ps"
proof (cases "ps = []")
  case True
  then show ?thesis by (simp add: set_last_subpath_def)
next
  case False
  then have "map panel_ident ps = map panel_ident (butlast ps @ [last ps])"
    by simp
  also have "\<dots> = map panel_ident (butlast ps) @ [panel_ident (last ps)]"
    by simp
  finally show ?thesis
    using False by (simp add: set_last_subpath_def panel_ident_def)
qed

lemma panel_ident_panels_upto:
  "map panel_ident (panels_upto es n) =
     map (\<lambda>i. panel_ident (entity_panel (es ! i))) (filter (creates_panel es) [0..<n])"
proof (induction n)
  case 0
  then show ?case by (simp add: panels_upto_def)
next
  case (Suc n)
  then show ?case
    by (simp add: panels_upto_Suc map_panel_ident_set_last_subpath)
qed

lemma build_loop_all:
  "build_loop es 0 ([], '''') =
     (panels_upto es (length es), last_collection_path es)"
proof -
  have "build_loop es 0 ([], '''') =
          foldl (\<lambda>st i. build_step es i st) ([], '''') [0..<length es]"
    by (rule build_loop_foldl) simp
  moreover have "snd (foldl (\<lambda>st i. build_step es i st) ([], '''') [0..<length es]) =
      last_collection_path es"
    using snd_foldl_build_step [of "length es" es] by simp
  ultimately show ?thesis
    by (simp only: panels_upto_def prod_eq_iff fst_conv snd_conv simp_thms)
qed

lemma buildSidePanels_eq:
  "buildSidePanels es newFlag =
     panels_upto es (length es) @
       (if newFlag then [new_entity_panel (last_collection_path es)] else [])"
  unfolding buildSidePanels_def Let_def build_loop_all new_entity_panel_def
  by simp

lemma selects_not_creates: "selects_subpath es i \<Longrightarrow> \<not> creates_panel es i"
  by (cases "es ! i") (simp_all add: selects_subpath_def creates_panel_def)

lemma panels_upto_selects:
  assumes "selects_subpath es i"
  shows "(panels_upto es i = [] \<longrightarrow> panels_upto es (Suc i) = []) \<and>
         (panels_upto es i \<noteq> [] \<longrightarrow>
            length (panels_upto es (Suc i)) = length (panels_upto es i) \<and>
            butlast (panels_upto es (Suc i)) = butlast (panels_upto es i) \<and>
            last (panels_upto es (Suc i)) =
              (last (panels_upto es i))\<lparr>selectedSubpath := Some (entry_subpath (es ! i))\<rparr>)"
proof -
  from assms selects_not_creates [OF assms]
  have "panels_upto es (Suc i) = set_last_subpath (entry_subpath (es ! i)) (panels_upto es i)"
    by (simp add: panels_upto_Suc)
  then show ?thesis
    by (simp add: set_last_subpath_def)
qed

text \<open>
  C9. For the entries \<open>es\<close> the resolver returns, \<^verbatim>\<open>buildSidePanelsFromUrl\<close> returns the
  stack built over all of \<open>es\<close>, followed, when the new flag is set, by one panel with no
  entity id for the path of the last collection entry. The stack starts empty and each
  position \<open>i\<close> changes it as follows: an entity entry at \<open>i > 0\<close> whose predecessor is a
  collection entry appends a panel for that entity (copy off, no subpath); a collection or
  custom view entry at \<open>i > 0\<close> whose predecessor is an entity entry adds no panel and
  sets the selected subpath of the last panel created so far, to the relative path of the
  collection or the path of the view, leaving the panels below and the other fields of
  that panel as they are (there is nothing to set while no panel exists); every other
  entry leaves the stack as it is. So the panels,
  their selected subpaths apart, are exactly the panels of the entries that create one,
  in order.
\<close>

theorem buildSidePanelsFromUrl_panels:
  "buildSidePanelsFromUrl nav path cs newFlag =
     panels_upto (nav path cs) (length (nav path cs)) @
       (if newFlag then [new_entity_panel (last_collection_path (nav path cs))] else []) \<and>
   panels_upto (nav path cs) 0 = [] \<and>
   (\<forall>i < length (nav path cs).
      panels_upto (nav path cs) (Suc i) =
        (if creates_panel (nav path cs) i
         then panels_upto (nav path cs) i @ [entity_panel (nav path cs ! i)]
         else if selects_subpath (nav path cs) i
              then set_last_subpath (entry_subpath (nav path cs ! i)) (panels_upto (nav path cs) i)
         else panels_upto (nav path cs) i)) \<and>
   map panel_ident (panels_upto (nav path cs) (length (nav path cs))) =
     map (\<lambda>i. panel_ident (entity_panel (nav path cs ! i)))
       (filter (creates_panel (nav path cs)) [0..<length (nav path cs)]) \<and>
   (\<forall>i < length (nav path cs). selects_subpath (nav path cs) i \<longrightarrow>
      (panels_upto (nav path cs) i = [] \<longrightarrow> panels_upto (nav path cs) (Suc i) = []) \<and>
      (panels_upto (nav path cs) i \<noteq> [] \<longrightarrow>
         length (panels_upto (nav path cs) (Suc i)) = length (panels_upto (nav path cs) i) \<and>
         butlast (panels_upto (nav path cs) (Suc i)) = butlast (panels_upto (nav path cs) i) \<and>
         last (panels_upto (nav path cs) (Suc i)) =
           (last (panels_upto (nav path cs) i))
             \<lparr>selectedSubpath := Some (entry_subpath (nav path cs ! i))\<rparr>))"
proof -
  have a: "buildSidePanelsFromUrl nav path cs newFlag =
     panels_upto (nav path cs) (length (nav path cs)) @
       (if newFlag then [new_entity_panel (last_collection_path (nav path cs))] else [])"
    by (simp only: buildSidePanelsFromUrl_def buildSidePanels_eq)
  have b: "panels_upto (nav path cs) 0 = []"
    by (simp add: panels_upto_def)
  have c: "\<forall>i < length (nav path cs).
      panels_upto (nav path cs) (Suc i) =
        (if creates_panel (nav path cs) i
         then panels_upto (nav path cs) i @ [entity_panel (nav path cs ! i)]
         else if selects_subpath (nav path cs) i
              then set_last_subpath (entry_subpath (nav path cs ! i)) (panels_upto (nav path cs) i)
         else panels_upto (nav path cs) i)"
    using panels_upto_Suc [of "nav path cs"] by blast
  have d: "map panel_ident (panels_upto (nav path cs) (length (nav path cs))) =
     map (\<lambda>i. panel_ident (entity_panel (nav path cs ! i)))
       (filter (creates_panel (nav path cs)) [0..<length (nav path cs)])"
    by (rule panel_ident_panels_upto)
  have e: "\<forall>i < length (nav path cs). selects_subpath (nav path cs) i \<longrightarrow>
      (panels_upto (nav path cs) i = [] \<longrightarrow> panels_upto (nav path cs) (Suc i) = []) \<and>
      (panels_upto (nav path cs) i \<noteq> [] \<longrightarrow>
         length (panels_upto (nav path cs) (Suc i)) = length (panels_upto (nav path cs) i) \<and>
         butlast (panels_upto (nav path cs) (Suc i)) = butlast (panels_upto (nav path cs) i) \<and>
         last (panels_upto (nav path cs) (Suc i)) =
           (last (panels_upto (nav path cs) i))
             \<lparr>selectedSubpath := Some (entry_subpath (nav path cs ! i))\<rparr>)"
    using panels_upto_selects [of "nav path cs"] by blast
  show ?thesis
    by (intro conjI) (rule a b c d e)+
qed

theorem buildSidePanelsFromUrl_panels_witness:
  "length ex_entries = 4 \<and>
   creates_panel ex_entries 1 \<and> selects_subpath ex_entries 2 \<and> creates_panel ex_entries 3 \<and>
   buildSidePanelsFromUrl (\<lambda>path cs. ex_entries) ''products/p1/locales/es'' [ex_products] True =
     [(ex_panel ''products'' (Some ''p1''))\<lparr>selectedSubpath := Some ''locales''\<rparr>,
      ex_panel ''products/p1/locales'' (Some ''es''),
      ex_panel ''products/p1/locales'' None]"
proof -
  let ?nav = "\<lambda>(path :: string) (cs :: EntityCollection list). ex_entries"
  note t = buildSidePanelsFromUrl_panels [of ?nav "''products/p1/locales/es''" "[ex_products]" True]
  have len: "length ex_entries = 4" by (simp add: ex_entries_def)
  have c0: "\<not> creates_panel ex_entries 0" "\<not> selects_subpath ex_entries 0"
    by (simp_all add: creates_panel_def selects_subpath_def)
  have c1: "creates_panel ex_entries 1"
    by (simp add: creates_panel_def ex_entries_def)
  have c2: "\<not> creates_panel ex_entries 2" "selects_subpath ex_entries 2"
    by (simp_all add: creates_panel_def selects_subpath_def ex_entries_def)
  have c3: "creates_panel ex_entries 3"
    by (simp add: creates_panel_def ex_entries_def)
  have e1: "entity_panel (ex_entries ! 1) = ex_panel ''products'' (Some ''p1'')"
    by (simp add: ex_entries_def entity_panel_def ex_panel_def)
  have e2: "entry_subpath (ex_entries ! 2) = ''locales''"
    by (simp add: ex_entries_def entry_subpath_def ex_locales_def)
  have e3: "entity_panel (ex_entries ! 3) = ex_panel ''products/p1/locales'' (Some ''es'')"
    by (simp add: ex_entries_def entity_panel_def ex_panel_def)
  have lc: "last_collection_path ex_entries = ''products/p1/locales''"
    by (simp add: ex_entries_def)
  from t have step: "i < 4 \<Longrightarrow> panels_upto ex_entries (Suc i) =
        (if creates_panel ex_entries i
         then panels_upto ex_entries i @ [entity_panel (ex_entries ! i)]
         else if selects_subpath ex_entries i
              then set_last_subpath (entry_subpath (ex_entries ! i)) (panels_upto ex_entries i)
         else panels_upto ex_entries i)" for i
    unfolding len by blast
  from t have p0: "panels_upto ex_entries 0 = []" by blast
  have p1: "panels_upto ex_entries (Suc 0) = []"
    using step [of 0] c0 p0 by simp
  have p2: "panels_upto ex_entries (Suc (Suc 0)) = [ex_panel ''products'' (Some ''p1'')]"
    using step [of "Suc 0"] c1 p1 e1 by simp
  have p3: "panels_upto ex_entries (Suc (Suc (Suc 0))) =
      [(ex_panel ''products'' (Some ''p1''))\<lparr>selectedSubpath := Some ''locales''\<rparr>]"
    using step [of "Suc (Suc 0)"] c2 p2 e2
    by (simp add: numeral_2_eq_2 set_last_subpath_def)
  have p4: "panels_upto ex_entries (Suc (Suc (Suc (Suc 0)))) =
      [(ex_panel ''products'' (Some ''p1''))\<lparr>selectedSubpath := Some ''locales''\<rparr>,
       ex_panel ''products/p1/locales'' (Some ''es'')]"
    using step [of "Suc (Suc (Suc 0))"] c3 p3 e3
    by (simp add: numeral_3_eq_3)
  have four: "(4::nat) = Suc (Suc (Suc (Suc 0)))" by simp
  from t have "buildSidePanelsFromUrl ?nav ''products/p1/locales/es'' [ex_products] True =
      panels_upto ex_entries 4 @ [new_entity_panel (last_collection_path ex_entries)]"
    unfolding len by simp
  then have r: "buildSidePanelsFromUrl ?nav ''products/p1/locales/es'' [ex_products] True =
     [(ex_panel ''products'' (Some ''p1''))\<lparr>selectedSubpath := Some ''locales''\<rparr>,
      ex_panel ''products/p1/locales'' (Some ''es''),
      ex_panel ''products/p1/locales'' None]"
    unfolding four p4 lc by (simp add: new_entity_panel_def ex_panel_def)
  from len c1 c2(2) c3 r show ?thesis by blast
qed

section \<open>Properties of \<^verbatim>\<open>useCollectionFetch\<close>\<close>

lemma data_listener_step:
  "data (listener_step props st ev) =
     (case ev of
        Delivered entities \<Rightarrow>
          initialEntities props @
            filter (\<lambda>e. entity_id e \<notin> entity_id ` set (initialEntities props)) entities
      | Failed e \<Rightarrow> [])"
  by (cases ev) (simp_all add: on_entities_def on_error_def updateData_def truthy_array_def)

lemma data_useCollectionFetch:
  "data (useCollectionFetch props evs) =
     (if evs = [] then initialEntities props
      else case last evs of
             Delivered entities \<Rightarrow>
               initialEntities props @
                 filter (\<lambda>e. entity_id e \<notin> entity_id ` set (initialEntities props)) entities
           | Failed e \<Rightarrow> [])"
proof (cases evs rule: rev_cases)
  case Nil
  then show ?thesis
    by (simp add: useCollectionFetch_def subscribe_def initial_fetch_state_def)
next
  case (snoc evs' ev)
  then show ?thesis
    by (simp add: useCollectionFetch_def data_listener_step)
qed

text \<open>
  C10, as the code has it. For one subscription of the hook: as long as the last thing
  the collection listener did was not to report an error (the hook was just mounted, or a
  batch of entities was delivered last), the returned data begins with the entities of
  \<^verbatim>\<open>entitiesDisplayedFirst\<close> that have values, in their given order, and no entity after
  them has the id of one of them; what follows them is the last batch without the
  entities of such an id. The same is stated on the prop itself: the data begins with
  the list in \<^verbatim>\<open>entitiesDisplayedFirst\<close> filtered for values, order kept. After an
  error, the returned data is empty.
\<close>

theorem useCollectionFetch_displayed_first:
  "(no_error_last evs \<longrightarrow>
      take (length (initialEntities props)) (data (useCollectionFetch props evs)) =
        initialEntities props \<and>
      (\<forall>e \<in> set (drop (length (initialEntities props)) (data (useCollectionFetch props evs))).
          entity_id e \<notin> entity_id ` set (initialEntities props))) \<and>
   (\<forall>entities. evs \<noteq> [] \<and> last evs = Delivered entities \<longrightarrow>
      drop (length (initialEntities props)) (data (useCollectionFetch props evs)) =
        filter (\<lambda>e. entity_id e \<notin> entity_id ` set (initialEntities props)) entities) \<and>
   (\<not> no_error_last evs \<longrightarrow> data (useCollectionFetch props evs) = []) \<and>
   (\<forall>es. entitiesDisplayedFirst props = Some es \<and> no_error_last evs \<longrightarrow>
      take (length (filter (\<lambda>e. entity_values e \<noteq> None) es))
        (data (useCollectionFetch props evs)) = filter (\<lambda>e. entity_values e \<noteq> None) es \<and>
      (\<forall>e \<in> set (drop (length (filter (\<lambda>e. entity_values e \<noteq> None) es))
                   (data (useCollectionFetch props evs))).
          \<forall>d \<in> set es. entity_values d \<noteq> None \<longrightarrow> entity_id e \<noteq> entity_id d))"
proof -
  have i: "entitiesDisplayedFirst props = Some es \<Longrightarrow>
      initialEntities props = filter (\<lambda>e. entity_values e \<noteq> None) es" for es
    by (simp add: initialEntities_def)
  have m: "(no_error_last evs \<longrightarrow>
      take (length (initialEntities props)) (data (useCollectionFetch props evs)) =
        initialEntities props \<and>
      (\<forall>e \<in> set (drop (length (initialEntities props)) (data (useCollectionFetch props evs))).
          entity_id e \<notin> entity_id ` set (initialEntities props))) \<and>
   (\<forall>entities. evs \<noteq> [] \<and> last evs = Delivered entities \<longrightarrow>
      drop (length (initialEntities props)) (data (useCollectionFetch props evs)) =
        filter (\<lambda>e. entity_id e \<notin> entity_id ` set (initialEntities props)) entities) \<and>
   (\<not> no_error_last evs \<longrightarrow> data (useCollectionFetch props evs) = [])"
  proof (cases "evs = []")
    case True
    then show ?thesis
      by (simp add: data_useCollectionFetch no_error_last_def)
  next
    case False
    then show ?thesis
      by (cases "last evs") (simp_all add: data_useCollectionFetch no_error_last_def)
  qed
  have o: "\<forall>es. entitiesDisplayedFirst props = Some es \<and> no_error_last evs \<longrightarrow>
      take (length (filter (\<lambda>e. entity_values e \<noteq> None) es))
        (data (useCollectionFetch props evs)) = filter (\<lambda>e. entity_values e \<noteq> None) es \<and>
      (\<forall>e \<in> set (drop (length (filter (\<lambda>e. entity_values e \<noteq> None) es))
                   (data (useCollectionFetch props evs))).
          \<forall>d \<in> set es. entity_values d \<noteq> None \<longrightarrow> entity_id e \<noteq> entity_id d)"
  proof (intro allI impI)
    fix es
    assume a: "entitiesDisplayedFirst props = Some es \<and> no_error_last evs"
    from a m have
      t: "take (length (initialEntities props)) (data (useCollectionFetch props evs)) =
        initialEntities props"
      and n: "\<forall>e \<in> set (drop (length (initialEntities props)) (data (useCollectionFetch props evs))).
          entity_id e \<notin> entity_id ` set (initialEntities props)"
      by blast+
    from a have ie: "initialEntities props = filter (\<lambda>e. entity_values e \<noteq> None) es"
      by (simp add: i)
    from t n show "take (length (filter (\<lambda>e. entity_values e \<noteq> None) es))
        (data (useCollectionFetch props evs)) = filter (\<lambda>e. entity_values e \<noteq> None) es \<and>
      (\<forall>e \<in> set (drop (length (filter (\<lambda>e. entity_values e \<noteq> None) es))
                   (data (useCollectionFetch props evs))).
          \<forall>d \<in> set es. entity_values d \<noteq> None \<longrightarrow> entity_id e \<noteq> entity_id d)"
      unfolding ie by auto
  qed
  from m o show ?thesis by blast
qed

theorem useCollectionFetch_displayed_first_witness:
  "no_error_last [Failed (Error ''offline''), Delivered [ex_entity ''a'', ex_entity ''b'']] \<and>
   initialEntities ex_fetch_props = [ex_entity ''b''] \<and>
   data (useCollectionFetch ex_fetch_props
           [Failed (Error ''offline''), Delivered [ex_entity ''a'', ex_entity ''b'']]) =
     [ex_entity ''b'', ex_entity ''a''] \<and>
   \<not> no_error_last [Delivered [ex_entity ''a''], Failed (Error ''offline'')] \<and>
   data (useCollectionFetch ex_fetch_props
           [Delivered [ex_entity ''a''], Failed (Error ''offline'')]) = [] \<and>
   entitiesDisplayedFirst ex_ordered_props =
     Some [ex_entity ''c'', \<lparr>entity_id = ''z'', entity_values = None\<rparr>, ex_entity ''a''] \<and>
   take 2 (data (useCollectionFetch ex_ordered_props [Delivered [ex_entity ''a'', ex_entity ''b'']]))
     = [ex_entity ''c'', ex_entity ''a'']"
proof -
  let ?es = "[ex_entity ''c'', \<lparr>entity_id = ''z'', entity_values = None\<rparr>, ex_entity ''a'']"
  let ?one = "[Delivered [ex_entity ''a'', ex_entity ''b'']]"
  have o1: "entitiesDisplayedFirst ex_ordered_props = Some ?es"
    by (simp add: ex_ordered_props_def)
  have o2: "no_error_last ?one"
    by (simp add: no_error_last_def)
  have o3: "filter (\<lambda>e. entity_values e \<noteq> None) ?es = [ex_entity ''c'', ex_entity ''a'']"
    by (simp add: ex_entity_def)
  from useCollectionFetch_displayed_first [of ?one ex_ordered_props] o1 o2
  have "take (length (filter (\<lambda>e. entity_values e \<noteq> None) ?es))
          (data (useCollectionFetch ex_ordered_props ?one)) =
        filter (\<lambda>e. entity_values e \<noteq> None) ?es"
    by blast
  then have o4: "take 2 (data (useCollectionFetch ex_ordered_props ?one)) =
      [ex_entity ''c'', ex_entity ''a'']"
    unfolding o3 by (simp add: numeral_2_eq_2)
  let ?ok = "[Failed (Error ''offline''), Delivered [ex_entity ''a'', ex_entity ''b'']]"
  let ?bad = "[Delivered [ex_entity ''a''], Failed (Error ''offline'')]"
  let ?d = "data (useCollectionFetch ex_fetch_props ?ok)"
  have i: "initialEntities ex_fetch_props = [ex_entity ''b'']"
    by (simp add: initialEntities_def ex_fetch_props_def ex_entity_def)
  have n1: "no_error_last ?ok"
    by (simp add: no_error_last_def)
  have n2: "\<not> no_error_last ?bad"
    by (simp add: no_error_last_def)
  have l: "?ok \<noteq> [] \<and> last ?ok = Delivered [ex_entity ''a'', ex_entity ''b'']"
    by simp
  have f: "filter (\<lambda>e. entity_id e \<notin> entity_id ` set [ex_entity ''b''])
             [ex_entity ''a'', ex_entity ''b''] = [ex_entity ''a'']"
    by (simp add: ex_entity_def)
  from useCollectionFetch_displayed_first [of ?ok ex_fetch_props] n1
  have t: "take (length (initialEntities ex_fetch_props)) ?d = initialEntities ex_fetch_props"
    by blast
  from useCollectionFetch_displayed_first [of ?ok ex_fetch_props] l
  have r: "drop (length (initialEntities ex_fetch_props)) ?d =
          filter (\<lambda>e. entity_id e \<notin> entity_id ` set (initialEntities ex_fetch_props))
              [ex_entity ''a'', ex_entity ''b'']"
    by blast
  have "?d = take (length (initialEntities ex_fetch_props)) ?d @
             drop (length (initialEntities ex_fetch_props)) ?d"
    by (simp only: append_take_drop_id)
  also have "\<dots> = [ex_entity ''b''] @ [ex_entity ''a'']"
    unfolding t r unfolding i f ..
  finally have d: "?d = [ex_entity ''b'', ex_entity ''a'']"
    by simp
  from useCollectionFetch_displayed_first [of ?bad ex_fetch_props] n2
  have e: "data (useCollectionFetch ex_fetch_props ?bad) = []"
    by blast
  from i n1 n2 d e o1 o4 show ?thesis by blast
qed

text \<open>
  The claim as it was stated fails once the listener reports an error: the props list an
  entity with values to display first, and the returned data is empty.
\<close>

theorem useCollectionFetch_displayed_first_counterexample:
  "entitiesDisplayedFirst ex_fetch_props \<noteq> None \<and>
   entitiesDisplayedFirst ex_fetch_props \<noteq> Some [] \<and>
   initialEntities ex_fetch_props = [ex_entity ''b''] \<and>
   data (useCollectionFetch ex_fetch_props [Failed (Error ''offline'')]) = [] \<and>
   take (length (initialEntities ex_fetch_props))
     (data (useCollectionFetch ex_fetch_props [Failed (Error ''offline'')]))
     \<noteq> initialEntities ex_fetch_props"
proof -
  have i: "initialEntities ex_fetch_props = [ex_entity ''b'']"
    by (simp add: initialEntities_def ex_fetch_props_def ex_entity_def)
  have d: "data (useCollectionFetch ex_fetch_props [Failed (Error ''offline'')]) = []"
    by (simp add: useCollectionFetch_def on_error_def)
  have e: "entitiesDisplayedFirst ex_fetch_props \<noteq> None"
    "entitiesDisplayedFirst ex_fetch_props \<noteq> Some []"
    by (simp_all add: ex_fetch_props_def)
  have t: "take (length (initialEntities ex_fetch_props))
     (data (useCollectionFetch ex_fetch_props [Failed (Error ''offline'')]))
     \<noteq> initialEntities ex_fetch_props"
    unfolding d i by simp
  from e i d t show ?thesis by blast
qed

section \<open>Properties of the path resolver\<close>











lemma getCollectionViewFromPath_odd:
  "odd (length (split_path path)) \<Longrightarrow>
     getCollectionViewFromPath path cs =
       Inr (match_collection cs (split_path path) (length (split_path path)))"
  by (simp add: getCollectionViewFromPath_def Let_def)

lemma getCollectionViewFromPath_even:
  "even (length (split_path path)) \<Longrightarrow>
     getCollectionViewFromPath path cs =
       Inl (Error (''Collection paths must have an odd number of segments: '' @ path))"
  by (simp add: getCollectionViewFromPath_def Let_def)

text \<open>
  Every expectation of \<^verbatim>\<open>navigation.test.ts\<close> on \<^verbatim>\<open>getCollectionViewFromPath\<close>, in the
  test's order.
\<close>

lemma navigation_test_expectations:
  "map_sum id (map_option relativePath) (getCollectionViewFromPath ''products'' ex_site_config)
     = Inr (Some ''products'')"
  "map_sum id (map_option relativePath)
     (getCollectionViewFromPath ''products/pid/locales'' ex_site_config) = Inr (Some ''locales'')"
  "map_sum id (map_option relativePath)
     (getCollectionViewFromPath ''sites/es/products'' ex_site_config)
     = Inr (Some ''sites/es/products'')"
  "map_sum id (map_option relativePath)
     (getCollectionViewFromPath ''sites/es/products/pid/locales'' ex_site_config)
     = Inr (Some ''locales'')"
  "getCollectionViewFromPath ''products/pid/not_existing'' ex_site_config = Inr None"
  "getCollectionViewFromPath ''products/pid'' ex_site_config =
     Inl (Error ''Collection paths must have an odd number of segments: products/pid'')"
  "getCollectionViewFromPath ''products'' [] = Inr None"
  "map_sum id (map_option relativePath)
     (getCollectionViewFromPath ''products/id/subcollection_inline'' ex_site_config)
     = Inr (Some ''products/id/subcollection_inline'')"
  by (simp_all add: getCollectionViewFromPath_def split_path_def match_collection.simps
      find_collection_def ex_site_config_def ex_products_def ex_site_products_def ex_inline_def
      ex_locales_def)

text \<open>
  C1. For every slash-delimited path whose segment count is even, \<^verbatim>\<open>getCollectionViewFromPath\<close>
  throws, whatever the collections are, and the error's message ends with the path.
\<close>

theorem getCollectionViewFromPath_even_throws:
  "even (length (split_path path)) \<Longrightarrow>
     getCollectionViewFromPath path cs =
       Inl (Error (''Collection paths must have an odd number of segments: '' @ path))"
  by (rule getCollectionViewFromPath_even)

theorem getCollectionViewFromPath_even_throws_witness:
  "even (length (split_path ''products/pid'')) \<and>
   getCollectionViewFromPath ''products/pid'' [ex_products] =
     Inl (Error ''Collection paths must have an odd number of segments: products/pid'')"
proof -
  have e: "even (length (split_path ''products/pid''))"
    by (simp add: split_path_def)
  from getCollectionViewFromPath_even_throws [OF e, of "[ex_products]"] e
  show ?thesis by simp
qed




section \<open>Which operations throw\<close>

text \<open>
  C5, as the code has it. Two operations throw. \<^verbatim>\<open>open\<close> throws exactly when a copy is
  requested without an entity id, with the message of the source; on every other call it
  returns. Path resolution throws exactly when the number of segments is even, with a
  message that names the path; on every other path it returns a collection or
  undefined. \<^verbatim>\<open>close\<close>, the history listener and \<^verbatim>\<open>buildSidePanelsFromUrl\<close> have no
  throwing branch: they are total functions that return a plain value.
\<close>

theorem throwing_operations:
  "((\<exists>e. open hp props s = Inl e) \<longleftrightarrow> throws_on props) \<and>
   (throws_on props \<longrightarrow>
      open hp props s =
        Inl (Error ''If you want to copy an entity you need to provide an entityId'')) \<and>
   ((\<exists>e. getCollectionViewFromPath path cs = Inl e) \<longleftrightarrow> even (length (split_path path))) \<and>
   (even (length (split_path path)) \<longrightarrow>
      getCollectionViewFromPath path cs =
        Inl (Error (''Collection paths must have an odd number of segments: '' @ path)))"
proof (intro conjI impI)
  show "(\<exists>e. open hp props s = Inl e) \<longleftrightarrow> throws_on props"
    by (simp add: open_unfold)
  show "(\<exists>e. getCollectionViewFromPath path cs = Inl e) \<longleftrightarrow> even (length (split_path path))"
    by (cases "even (length (split_path path))")
       (simp_all add: getCollectionViewFromPath_even getCollectionViewFromPath_odd)
next
  assume "throws_on props"
  then show "open hp props s =
      Inl (Error ''If you want to copy an entity you need to provide an entityId'')"
    by (simp add: open_unfold)
next
  assume "even (length (split_path path))"
  then show "getCollectionViewFromPath path cs =
      Inl (Error (''Collection paths must have an odd number of segments: '' @ path))"
    by (rule getCollectionViewFromPath_even)
qed

theorem throwing_operations_witness:
  "throws_on (ex_props ''users'' (Some '''') (Some True)) \<and>
   open ex_helpers (ex_props ''users'' (Some '''') (Some True)) (ex_started ''/c/users'' []) =
     Inl (Error ''If you want to copy an entity you need to provide an entityId'') \<and>
   \<not> throws_on (ex_props ''users'' None None) \<and>
   (\<nexists>e. open ex_helpers (ex_props ''users'' None None) (ex_started ''/c/users'' []) = Inl e) \<and>
   even (length (split_path ''users/u1'')) \<and>
   getCollectionViewFromPath ''users/u1'' [ex_products] =
     Inl (Error ''Collection paths must have an odd number of segments: users/u1'') \<and>
   odd (length (split_path ''users'')) \<and>
   (\<nexists>e. getCollectionViewFromPath ''users'' [ex_products] = Inl e)"
proof -
  have t1: "throws_on (ex_props ''users'' (Some '''') (Some True))"
    by (simp add: throws_on_def ex_props_def truthy_bool_def truthy_string_def)
  have t2: "\<not> throws_on (ex_props ''users'' None None)"
    by (simp add: throws_on_def ex_props_def truthy_bool_def)
  have e1: "even (length (split_path ''users/u1''))"
    by (simp add: split_path_def)
  have e2: "odd (length (split_path ''users''))"
    by (simp add: split_path_def)
  note a = throwing_operations [of ex_helpers "ex_props ''users'' (Some '''') (Some True)"
      "ex_started ''/c/users'' []" "''users/u1''" "[ex_products]"]
  note b = throwing_operations [of ex_helpers "ex_props ''users'' None None"
      "ex_started ''/c/users'' []" "''users''" "[ex_products]"]
  from a t1 have r1: "open ex_helpers (ex_props ''users'' (Some '''') (Some True))
      (ex_started ''/c/users'' []) =
     Inl (Error ''If you want to copy an entity you need to provide an entityId'')"
    by blast
  from a e1 have r2: "getCollectionViewFromPath ''users/u1'' [ex_products] =
     Inl (Error (''Collection paths must have an odd number of segments: '' @ ''users/u1''))"
    by blast
  from b t2 have r3: "\<nexists>e. open ex_helpers (ex_props ''users'' None None)
      (ex_started ''/c/users'' []) = Inl e"
    by blast
  from b e2 have r4: "\<nexists>e. getCollectionViewFromPath ''users'' [ex_products] = Inl e"
    by blast
  from t1 r1 t2 r3 e1 r2 e2 r4 show ?thesis by simp
qed

text \<open>
  The claim as it was stated fails on \<^verbatim>\<open>open\<close>: asked to copy without an entity id, it
  throws, and no path is resolved on the way.
\<close>

theorem throwing_operations_counterexample:
  "open ex_helpers (ex_props ''products'' None (Some True))
     (ex_opened ''/c/products/p1'' [ex_panel ''products'' (Some ''p1'')]) =
   Inl (Error ''If you want to copy an entity you need to provide an entityId'')"
  by (simp add: open_def ex_props_def truthy_bool_def truthy_string_def)

end
